theory Spec2Isabelle
  imports Main "HOL-Library.Sublist"
begin

section \<open>Data model (src/types/index.ts)\<close>

datatype MessageRole = User | Assistant

datatype AvatarState = Idle | Listening | Thinking | Speaking

text \<open>
  A stored row of the \<open>conversations\<close> table. The identifier and the creation time are
  generated by the store; they are opaque to the hook, so both are natural numbers here.
  The \<open>metadata\<close> field is always the empty object in the code under study and is left out.
\<close>

record Message =
  msg_id :: nat
  session_id :: string
  role :: MessageRole
  content :: string
  created_at :: nat

text \<open>\<open>Omit<Message, 'id' | 'created_at'>\<close>: what the hook hands to \<open>saveMessage\<close>.\<close>

record NewMessage =
  new_session_id :: string
  new_role :: MessageRole
  new_content :: string

record ConversationSummary =
  summary_session_id :: string
  summary :: string
  message_count :: nat
  updated_at :: nat

text \<open>\<open>Omit<ConversationSummary, 'id' | 'created_at' | 'updated_at'>\<close>.\<close>

record NewSummary =
  ns_session_id :: string
  ns_summary :: string
  ns_message_count :: nat

section \<open>Strings\<close>

text \<open>
  A \<open>char\<close> stands for one UTF-16 code unit in the range 0 to 255, so that \<open>CHR 0xA0\<close> is
  the no-break space U+00A0; a \<open>string\<close> is a JavaScript string over these code units.
  \<open>String.prototype.trim\<close> strips the code units of the productions \<open>WhiteSpace\<close> and
  \<open>LineTerminator\<close>. In the range 0 to 255 these are the tab U+0009, the line feed
  U+000A, the vertical tab U+000B, the form feed U+000C, the carriage return U+000D, the
  space U+0020 and the no-break space U+00A0; the others (U+1680, U+2000 to U+200A,
  U+2028, U+2029, U+202F, U+205F, U+3000, U+FEFF) lie above the range. An empty string
  is falsy in JavaScript, so \<open>!text.trim()\<close> is \<open>trim text = []\<close>.
\<close>

definition is_space :: "char \<Rightarrow> bool" where
  "is_space c = (c = CHR '' '' \<or> c = CHR 0x09 \<or> c = CHR 0x0A \<or> c = CHR 0x0B
                 \<or> c = CHR 0x0C \<or> c = CHR 0x0D \<or> c = CHR 0xA0)"

definition trim :: "string \<Rightarrow> string" where
  "trim s = rev (dropWhile is_space (rev (dropWhile is_space s)))"

text \<open>Decimal rendering of a number inside a template literal.\<close>

definition digit_char :: "nat \<Rightarrow> char" where
  "digit_char d = char_of (48 + d)"

fun show_nat_fuel :: "nat \<Rightarrow> nat \<Rightarrow> string" where
  "show_nat_fuel 0 n = [digit_char (n mod 10)]"
| "show_nat_fuel (Suc k) n =
     (if n < 10 then [digit_char n] else show_nat_fuel k (n div 10) @ [digit_char (n mod 10)])"

definition show_nat :: "nat \<Rightarrow> string" where
  "show_nat n = show_nat_fuel n n"

section \<open>The render scope of a closure\<close>

text \<open>
  Every render of \<open>useConversation\<close> binds \<open>sessionId\<close>, \<open>messages\<close>, \<open>isListening\<close>,
  \<open>isSpeaking\<close> and \<open>isProcessing\<close> as constants. A closure created during a render
  (\<open>handleUserSpeech\<close>, the callbacks handed to the speech service, the timer callbacks)
  reads these constants, not the state at the time it runs. A closure is therefore
  represented by the scope it closed over.
\<close>

record Scope =
  sc_sessionId :: string
  sc_messages :: "Message list"
  sc_isListening :: bool
  sc_isSpeaking :: bool
  sc_isProcessing :: bool

section \<open>The speech service (src/services/speech.ts)\<close>

text \<open>
  One object of the class. \<open>instance_id\<close> tells the objects apart: every \<open>new
  SpeechService\<close> has its own. \<open>recognition\<close> says whether the browser offered a
  recognition object (\<open>this.recognition\<close> is not null); \<open>synthesis_present\<close> says whether
  \<open>window.speechSynthesis\<close> exists, and \<open>synthesis_speaking\<close> is its \<open>speaking\<close> flag. A
  callback slot holds the closure registered there, or nothing. The methods that use
  \<open>this.synthesis\<close> are modelled for a browser that has it.
\<close>

record SpeechService =
  instance_id :: nat
  recognition :: bool
  synthesis_present :: bool
  isListeningFlag :: bool
  synthesis_speaking :: bool
  onTranscriptCallback :: "Scope option"
  onErrorCallback :: "Scope option"
  onSpeakingStartCallback :: "Scope option"
  onSpeakingEndCallback :: "Scope option"

text \<open>
  \<open>recognition.onerror\<close>: the call of the error callback that the handler makes, as the
  closure called and its argument, or \<open>None\<close> when the handler returns without a call.
\<close>

definition recognition_onerror :: "SpeechService \<Rightarrow> string \<Rightarrow> (Scope \<times> string) option" where
  "recognition_onerror svc event_error =
     (if event_error = ''no-speech'' then None
      else if event_error = ''aborted'' then None
      else case onErrorCallback svc of
             Some cb \<Rightarrow> Some (cb, ''Speech recognition error: '' @ event_error)
           | None \<Rightarrow> None)"

text \<open>\<open>recognition.onresult\<close> with the last result's transcript and final flag.\<close>

definition recognition_onresult ::
  "SpeechService \<Rightarrow> string \<Rightarrow> bool \<Rightarrow> (Scope \<times> string \<times> bool) option" where
  "recognition_onresult svc transcript isFinal =
     (case onTranscriptCallback svc of
        Some cb \<Rightarrow> Some (cb, transcript, isFinal)
      | None \<Rightarrow> None)"


definition service_stopListening :: "SpeechService \<Rightarrow> SpeechService" where
  "service_stopListening svc =
     (if \<not> recognition svc \<or> \<not> isListeningFlag svc then svc
      else svc\<lparr>isListeningFlag := False\<rparr>)"

definition service_stopSpeaking :: "SpeechService \<Rightarrow> SpeechService" where
  "service_stopSpeaking svc =
     (if synthesis_speaking svc then svc\<lparr>synthesis_speaking := False\<rparr> else svc)"


definition service_cleanup :: "SpeechService \<Rightarrow> SpeechService" where
  "service_cleanup svc =
     (service_stopSpeaking (service_stopListening svc))
       \<lparr>onTranscriptCallback := None, onErrorCallback := None,
        onSpeakingStartCallback := None, onSpeakingEndCallback := None\<rparr>"

section \<open>The Gemini service (src/services/gemini.ts)\<close>

record GeminiContent =
  gc_role :: string
  gc_text :: string

text \<open>\<open>messages.slice(-10)\<close>: the start index is \<open>max (length - 10) 0\<close>.\<close>

definition slice_last :: "nat \<Rightarrow> 'a list \<Rightarrow> 'a list" where
  "slice_last k xs = (if length xs < k then xs else drop (length xs - k) xs)"

definition format_one :: "Message \<Rightarrow> GeminiContent" where
  "format_one msg =
     \<lparr>gc_role = (if role msg = User then ''user'' else ''model''), gc_text = content msg\<rparr>"

text \<open>
  \<open>formatMessages\<close>: the optional summary is pushed first when it is truthy (present and
  not the empty string), then the loop pushes the recent messages one by one.
\<close>

fun push_all :: "GeminiContent list \<Rightarrow> Message list \<Rightarrow> GeminiContent list" where
  "push_all contextMessages [] = contextMessages"
| "push_all contextMessages (msg # rest) = push_all (contextMessages @ [format_one msg]) rest"

definition formatMessages :: "Message list \<Rightarrow> string option \<Rightarrow> GeminiContent list" where
  "formatMessages msgs summ =
     (let contextMessages =
            (case summ of
               None \<Rightarrow> []
             | Some t \<Rightarrow>
                 if t = [] then []
                 else [\<lparr>gc_role = ''user'',
                        gc_text = ''[Previous conversation summary: '' @ t @ '']''\<rparr>])
      in push_all contextMessages (slice_last 10 msgs))"

text \<open>
  What \<open>fetch\<close> and the reads of the body can deliver to \<open>makeRequest\<close>. \<open>Rejected\<close>
  stands for every exception other than the three that \<open>makeRequest\<close> throws itself:
  \<open>fetch\<close> rejects, the read of an OK answer's body rejects, or the inspection of a
  parsed body throws (a body that is the JSON value \<open>null\<close>, for one), with an error of
  that message. \<open>NotOk status found statusText\<close> is any other answer that is not OK,
  where \<open>found\<close> is \<open>errorData.error?.message\<close> if the body has one (a body that cannot
  be read counts as \<open>{}\<close>). The last three are what an OK answer's parsed body can hold.
\<close>

datatype HttpResponse =
    Rejected string
  | NotOk nat "string option" string
  | NoCandidates
  | InvalidStructure
  | Candidate string

definition makeRequest_result :: "HttpResponse \<Rightarrow> string + string" where
  "makeRequest_result r =
     (case r of
        Rejected msg \<Rightarrow> Inl msg
      | NotOk status found statusText \<Rightarrow>
          Inl (''Gemini API error: '' @ show_nat status @ '' - ''
               @ (case found of
                    None \<Rightarrow> statusText
                  | Some msg \<Rightarrow> if msg = [] then statusText else msg))
      | NoCandidates \<Rightarrow> Inl ''No response generated from Gemini API''
      | InvalidStructure \<Rightarrow> Inl ''Invalid response structure from Gemini API''
      | Candidate t \<Rightarrow> Inr t)"

text \<open>
  The service instance together with the network it talks to. A promise returned by
  \<open>makeRequest\<close> is identified by a number; \<open>outstanding\<close> lists the HTTP requests that
  \<open>fetch\<close> has sent and that have not been answered yet, with their payloads.
\<close>

record GeminiService =
  apiKey :: string
  requestQueue :: "nat list"
  outstanding :: "(nat \<times> GeminiContent list) list"
  next_request :: nat

definition new_GeminiService :: "string \<Rightarrow> GeminiService" where
  "new_GeminiService k = \<lparr>apiKey = k, requestQueue = [], outstanding = [], next_request = 0\<rparr>"

text \<open>
  \<open>generateResponse\<close> up to its \<open>await request\<close>: the call of the async function
  \<open>makeRequest\<close> runs to its own first \<open>await\<close>, so \<open>fetch\<close> has been called (the request is
  on the wire) before the promise is pushed on \<open>requestQueue\<close>.
\<close>

definition generateResponse_call ::
  "Message list \<Rightarrow> string option \<Rightarrow> GeminiService \<Rightarrow> nat \<times> GeminiService" where
  "generateResponse_call msgs conversationSummary g =
     (let formattedMessages = formatMessages msgs conversationSummary;
          request = next_request g
      in (request,
          g\<lparr>outstanding := outstanding g @ [(request, formattedMessages)],
            next_request := Suc request,
            requestQueue := requestQueue g @ [request]\<rparr>))"

text \<open>
  The rest of \<open>generateResponse\<close>, run when the HTTP answer for \<open>request\<close> arrives: the
  result of \<open>makeRequest\<close> is returned or thrown, and \<open>finally\<close> filters the promise out of
  the queue.
\<close>

definition generateResponse_settle ::
  "nat \<Rightarrow> HttpResponse \<Rightarrow> GeminiService \<Rightarrow> (string + string) \<times> GeminiService" where
  "generateResponse_settle request r g =
     (makeRequest_result r,
      g\<lparr>outstanding := filter (\<lambda>p. fst p \<noteq> request) (outstanding g),
        requestQueue := filter (\<lambda>req. req \<noteq> request) (requestQueue g)\<rparr>)"

text \<open>
  One call of \<open>generateResponse\<close> from its start to the answer \<open>r\<close>, with nothing in
  between. Besides the result and the service afterwards it gives the payloads of the HTTP
  requests the call has sent: those outstanding after \<open>generateResponse_call\<close> that were
  not outstanding before it.
\<close>

definition generateResponse ::
  "Message list \<Rightarrow> string option \<Rightarrow> HttpResponse \<Rightarrow> GeminiService
     \<Rightarrow> (string + string) \<times> GeminiContent list list \<times> GeminiService" where
  "generateResponse msgs conversationSummary r g =
     (case generateResponse_call msgs conversationSummary g of
        (request, g1) \<Rightarrow>
          (case generateResponse_settle request r g1 of
             (result, g2) \<Rightarrow>
               (result, map snd (drop (length (outstanding g)) (outstanding g1)), g2)))"

definition gemini_isProcessing :: "GeminiService \<Rightarrow> bool" where
  "gemini_isProcessing g = (0 < length (requestQueue g))"

section \<open>The persistence service (src/services/database.ts)\<close>

text \<open>
  The Supabase backend as the tables it holds. \<open>db_seq\<close> supplies the identifier and the
  time stamp of the next inserted row. Whether the backend answers a request with an
  error is not decided by the program: every operation takes the backend's error message,
  if any, as its first argument.
\<close>

record Database =
  conversations :: "Message list"
  conversation_summaries :: "ConversationSummary list"
  db_seq :: nat

text \<open>The row the backend makes of an insert: the columns given, and the two it fills in.\<close>

definition stored_row :: "NewMessage \<Rightarrow> Database \<Rightarrow> Message" where
  "stored_row m d =
     \<lparr>msg_id = db_seq d, session_id = new_session_id m, role = new_role m,
      content = new_content m, created_at = db_seq d\<rparr>"

definition saveMessage ::
  "string option \<Rightarrow> NewMessage \<Rightarrow> Database \<Rightarrow> (string + Message) \<times> Database" where
  "saveMessage backend_error m d =
     (case backend_error of
        Some e \<Rightarrow> (Inl (''Failed to save message: '' @ e), d)
      | None \<Rightarrow>
          (let row = stored_row m d
           in (Inr row, d\<lparr>conversations := conversations d @ [row], db_seq := Suc (db_seq d)\<rparr>)))"

definition getConversationMessages ::
  "string option \<Rightarrow> string \<Rightarrow> Database \<Rightarrow> string + Message list" where
  "getConversationMessages backend_error sid d =
     (case backend_error of
        Some e \<Rightarrow> Inl (''Failed to fetch messages: '' @ e)
      | None \<Rightarrow> Inr (sort_key created_at (filter (\<lambda>m. session_id m = sid) (conversations d))))"

definition getSummary ::
  "string option \<Rightarrow> string \<Rightarrow> Database \<Rightarrow> string + ConversationSummary option" where
  "getSummary backend_error sid d =
     (case backend_error of
        Some e \<Rightarrow> Inl (''Failed to fetch summary: '' @ e)
      | None \<Rightarrow> Inr (find (\<lambda>r. summary_session_id r = sid) (conversation_summaries d)))"

text \<open>\<open>upsert\<close> with \<open>onConflict: 'session_id'\<close>.\<close>

fun upsert_summary :: "ConversationSummary \<Rightarrow> ConversationSummary list \<Rightarrow> ConversationSummary list" where
  "upsert_summary row [] = [row]"
| "upsert_summary row (r # rs) =
     (if summary_session_id r = summary_session_id row then row # rs
      else r # upsert_summary row rs)"

definition saveSummary ::
  "string option \<Rightarrow> NewSummary \<Rightarrow> Database \<Rightarrow> (string + ConversationSummary) \<times> Database" where
  "saveSummary backend_error x d =
     (case backend_error of
        Some e \<Rightarrow> (Inl (''Failed to save summary: '' @ e), d)
      | None \<Rightarrow>
          (let row = \<lparr>summary_session_id = ns_session_id x, summary = ns_summary x,
                       message_count = ns_message_count x, updated_at = db_seq d\<rparr>
           in (Inr row,
               d\<lparr>conversation_summaries := upsert_summary row (conversation_summaries d),
                 db_seq := Suc (db_seq d)\<rparr>)))"

section \<open>The hook (src/hooks/useConversation.ts)\<close>

subsection \<open>State, timers and the world around the hook\<close>

text \<open>
  The eight \<open>useState\<close> cells and the two refs that hold data. \<open>speechServiceRef\<close> is set by
  the speech effect before any handler can run; the service it points to is the \<open>speech\<close>
  field of the world below.
\<close>

record HookState =
  messages :: "Message list"
  currentTranscript :: string
  avatarState :: AvatarState
  isListening :: bool
  isSpeaking :: bool
  isProcessing :: bool
  error :: "string option"
  sessionId :: string
  pendingTranscriptRef :: string
  transcriptTimeoutRef :: "nat option"

definition initial_state :: HookState where
  "initial_state =
     \<lparr>messages = [], currentTranscript = [], avatarState = Idle, isListening = False,
      isSpeaking = False, isProcessing = False, error = None, sessionId = [],
      pendingTranscriptRef = [], transcriptTimeoutRef = None\<rparr>"

text \<open>The constants a render binds, read off the state it renders.\<close>

definition render :: "HookState \<Rightarrow> Scope" where
  "render s =
     \<lparr>sc_sessionId = sessionId s, sc_messages = messages s, sc_isListening = isListening s,
      sc_isSpeaking = isSpeaking s, sc_isProcessing = isProcessing s\<rparr>"

text \<open>
  The two callbacks handed to \<open>setTimeout\<close> by the transcript handler. The first closes
  over the trimmed transcript of its event; the second reads \<open>pendingTranscriptRef\<close> when it
  runs. Both call the \<open>handleUserSpeech\<close> of the scope they were created in.
\<close>

datatype TimerCallback = FinalizeTimer Scope string | SafetyTimer Scope

record Timer =
  timer_id :: nat
  due :: nat
  callback :: TimerCallback

text \<open>The requests that leave the program, in the order they are made.\<close>

datatype Call =
    InsertMessage NewMessage
  | SelectSummary string
  | Fetch "GeminiContent list"
  | Utter string
  | UpsertSummary NewSummary

record World =
  db :: Database
  geminiServiceInstance :: "GeminiService option"
  speech :: SpeechService
  timers :: "Timer list"
  next_timer :: nat
  clock :: nat
  trace :: "Call list"

type_synonym Sys = "HookState \<times> World"

definition setTimeout :: "TimerCallback \<Rightarrow> nat \<Rightarrow> World \<Rightarrow> nat \<times> World" where
  "setTimeout cb delay w =
     (next_timer w,
      w\<lparr>timers := timers w @ [\<lparr>timer_id = next_timer w, due = clock w + delay, callback = cb\<rparr>],
        next_timer := Suc (next_timer w)\<rparr>)"

definition clearTimeout :: "nat \<Rightarrow> World \<Rightarrow> World" where
  "clearTimeout t w = w\<lparr>timers := filter (\<lambda>x. timer_id x \<noteq> t) (timers w)\<rparr>"

subsection \<open>The callbacks registered with the speech service\<close>

definition hook_onError :: "string \<Rightarrow> HookState \<Rightarrow> HookState" where
  "hook_onError errorMsg s = s\<lparr>error := Some errorMsg, isListening := False, avatarState := Idle\<rparr>"

definition hook_onSpeakingStart :: "HookState \<Rightarrow> HookState" where
  "hook_onSpeakingStart s = s\<lparr>isSpeaking := True, avatarState := Speaking\<rparr>"

definition hook_onSpeakingEnd :: "Scope \<Rightarrow> HookState \<Rightarrow> HookState" where
  "hook_onSpeakingEnd sc s =
     (let s1 = s\<lparr>isSpeaking := False\<rparr>
      in if \<not> sc_isListening sc \<and> \<not> sc_isProcessing sc then s1\<lparr>avatarState := Idle\<rparr> else s1)"

definition hook_onTranscript :: "Scope \<Rightarrow> string \<Rightarrow> bool \<Rightarrow> Sys \<Rightarrow> Sys" where
  "hook_onTranscript sc transcript isFinal sys =
     (case sys of (s, w) \<Rightarrow>
        (let s1 = s\<lparr>currentTranscript := transcript, pendingTranscriptRef := transcript\<rparr>;
             w1 = (case transcriptTimeoutRef s1 of Some t \<Rightarrow> clearTimeout t w | None \<Rightarrow> w)
         in if isFinal \<and> trim transcript \<noteq> [] then
              (case setTimeout (FinalizeTimer sc (trim transcript)) 1000 w1 of
                 (t, w2) \<Rightarrow> (s1\<lparr>transcriptTimeoutRef := Some t\<rparr>, w2))
            else if \<not> isFinal then
              (case setTimeout (SafetyTimer sc) 2000 w1 of
                 (t, w2) \<Rightarrow> (s1\<lparr>transcriptTimeoutRef := Some t\<rparr>, w2))
            else (s1, w1)))"

text \<open>
  The events of the recognition object of the current service, delivered to whatever is
  registered there. (The recognition object of an earlier service was stopped by
  \<open>cleanup\<close>, which also emptied that service's slots.)
\<close>

definition deliver_error :: "(Scope \<times> string) option \<Rightarrow> HookState \<Rightarrow> HookState" where
  "deliver_error c s = (case c of None \<Rightarrow> s | Some (cb, errorMsg) \<Rightarrow> hook_onError errorMsg s)"

definition recognition_error_event :: "string \<Rightarrow> Sys \<Rightarrow> Sys" where
  "recognition_error_event event_error sys =
     (case sys of (s, w) \<Rightarrow> (deliver_error (recognition_onerror (speech w) event_error) s, w))"

definition recognition_result_event :: "string \<Rightarrow> bool \<Rightarrow> Sys \<Rightarrow> Sys" where
  "recognition_result_event transcript isFinal sys =
     (case sys of (s, w) \<Rightarrow>
        (case recognition_onresult (speech w) transcript isFinal of
           None \<Rightarrow> (s, w)
         | Some (cb, t, f) \<Rightarrow> hook_onTranscript cb t f (s, w)))"

text \<open>
  The handlers that \<open>speak\<close> puts on an utterance read the callback slots of the service
  that spoke it (\<open>this\<close>); \<open>owner\<close> is the \<open>instance_id\<close> of that service. A service that is
  no longer the one \<open>speechServiceRef\<close> points to has been through \<open>cleanup\<close>, which emptied
  its slots, so the events of its utterances call nothing.
\<close>

definition start_callback :: "nat \<Rightarrow> SpeechService \<Rightarrow> Scope option" where
  "start_callback owner svc =
     (if instance_id svc = owner then onSpeakingStartCallback svc else None)"

definition end_callback :: "nat \<Rightarrow> SpeechService \<Rightarrow> Scope option" where
  "end_callback owner svc =
     (if instance_id svc = owner then onSpeakingEndCallback svc else None)"

definition utterance_onstart :: "nat \<Rightarrow> Sys \<Rightarrow> Sys" where
  "utterance_onstart owner sys =
     (case sys of (s, w) \<Rightarrow>
        (case start_callback owner (speech w) of
           Some cb \<Rightarrow> hook_onSpeakingStart s
         | None \<Rightarrow> s,
         w\<lparr>speech := (speech w)\<lparr>synthesis_speaking := True\<rparr>\<rparr>))"

text \<open>
  \<open>utterance.onend\<close> and \<open>utterance.onerror\<close> make the same callback call and then settle
  the promise of \<open>speak\<close>: the first resolves it (\<open>Inr ()\<close>), the second rejects it with an
  error whose message names the event's error (\<open>Inl\<close>). A cancelled utterance ends through
  one of the two.
\<close>

definition utterance_finished :: "nat \<Rightarrow> Sys \<Rightarrow> Sys" where
  "utterance_finished owner sys =
     (case sys of (s, w) \<Rightarrow>
        (case end_callback owner (speech w) of
           Some cb \<Rightarrow> hook_onSpeakingEnd cb s
         | None \<Rightarrow> s,
         w\<lparr>speech := (speech w)\<lparr>synthesis_speaking := False\<rparr>\<rparr>))"

definition utterance_onend :: "nat \<Rightarrow> Sys \<Rightarrow> (string + unit) \<times> Sys" where
  "utterance_onend owner sys = (Inr (), utterance_finished owner sys)"

definition utterance_onerror :: "nat \<Rightarrow> string \<Rightarrow> Sys \<Rightarrow> (string + unit) \<times> Sys" where
  "utterance_onerror owner event_error sys =
     (Inl (''Speech synthesis error: '' @ event_error), utterance_finished owner sys)"

subsection \<open>handleUserSpeech\<close>

text \<open>
  The answers of the outside world to one run of the pipeline, one per \<open>await\<close>: the
  backend's error for each database request (if it fails), the HTTP answer to the Gemini
  request, and how speech synthesis ends. \<open>SpeakErrored started e\<close> is a synthesis error
  event \<open>e\<close>, raised before or after the start event.
\<close>

datatype SpeakOutcome = SpeakEnded | SpeakErrored bool string

record Outcomes =
  saveUser_error :: "string option"
  getSummary_error :: "string option"
  http_response :: HttpResponse
  saveAi_error :: "string option"
  speak_outcome :: SpeakOutcome
  saveSummary_error :: "string option"

text \<open>The \<open>catch\<close> block. Everything thrown inside the \<open>try\<close> is an \<open>Error\<close> with a message.\<close>

definition catch_block :: "string \<Rightarrow> Sys \<Rightarrow> Sys" where
  "catch_block msg sys =
     (case sys of (s, w) \<Rightarrow>
        (s\<lparr>error := Some msg, isProcessing := False, avatarState := Idle\<rparr>, w))"

definition userMessage :: "Scope \<Rightarrow> string \<Rightarrow> NewMessage" where
  "userMessage sc text = \<lparr>new_session_id = sc_sessionId sc, new_role = User, new_content = text\<rparr>"

definition aiMessage :: "Scope \<Rightarrow> string \<Rightarrow> NewMessage" where
  "aiMessage sc aiResponse =
     \<lparr>new_session_id = sc_sessionId sc, new_role = Assistant, new_content = aiResponse\<rparr>"

definition summary_payload :: "Scope \<Rightarrow> NewSummary" where
  "summary_payload sc =
     \<lparr>ns_session_id = sc_sessionId sc,
      ns_summary = ''Conversation with '' @ show_nat (length (sc_messages sc))
                   @ '' messages. Recent topics discussed.'',
      ns_message_count = length (sc_messages sc)\<rparr>"

text \<open>
  Lines 125 to 147: the guard and the synchronous statements up to the first \<open>await\<close>,
  where the insert request for the user message has been made. \<open>None\<close> is the early
  \<open>return\<close> of the guard.
\<close>

definition handleUserSpeech_begin :: "Scope \<Rightarrow> string \<Rightarrow> Sys \<Rightarrow> Sys option" where
  "handleUserSpeech_begin sc text sys =
     (case sys of (s, w) \<Rightarrow>
        if trim text = [] \<or> sc_isProcessing sc then None
        else
          (let w1 = (case transcriptTimeoutRef s of Some t \<Rightarrow> clearTimeout t w | None \<Rightarrow> w);
               s1 = s\<lparr>transcriptTimeoutRef := None, currentTranscript := [],
                      pendingTranscriptRef := [], isListening := False, isProcessing := True,
                      avatarState := Thinking\<rparr>;
               w2 = w1\<lparr>speech := service_stopListening (speech w1),
                       trace := trace w1 @ [InsertMessage (userMessage sc text)]\<rparr>
           in Some (s1, w2)))"

text \<open>Lines 177 to 183, after \<open>speak\<close> has resolved.\<close>

definition stage_summary :: "Scope \<Rightarrow> Outcomes \<Rightarrow> Sys \<Rightarrow> Sys" where
  "stage_summary sc oc sys =
     (case sys of (s, w) \<Rightarrow>
        if 20 < length (sc_messages sc) then
          (let w1 = w\<lparr>trace := trace w @ [UpsertSummary (summary_payload sc)]\<rparr>
           in case saveSummary (saveSummary_error oc) (summary_payload sc) (db w1) of
                (Inl e, d) \<Rightarrow> catch_block e (s, w1)
              | (Inr row, d) \<Rightarrow> (s, w1\<lparr>db := d\<rparr>))
        else (s, w))"

text \<open>
  \<open>SpeechService.speak\<close> from the call to the settling of its promise: \<open>Inr ()\<close> when it
  resolves, \<open>Inl\<close> the message of the error it rejects with.
\<close>

definition service_speak :: "string \<Rightarrow> SpeakOutcome \<Rightarrow> Sys \<Rightarrow> (string + unit) \<times> Sys" where
  "service_speak text outcome sys =
     (case sys of (s, w) \<Rightarrow>
        (let owner = instance_id (speech w);
             sys1 = (s, w\<lparr>speech := service_stopSpeaking (speech w),
                           trace := trace w @ [Utter text]\<rparr>)
         in case outcome of
              SpeakEnded \<Rightarrow> utterance_onend owner (utterance_onstart owner sys1)
            | SpeakErrored started e \<Rightarrow>
                utterance_onerror owner e
                  (if started then utterance_onstart owner sys1 else sys1)))"

text \<open>
  Line 175 and what follows it: how \<open>handleUserSpeech\<close> goes on when the promise of
  \<open>speak\<close> has settled. A rejection is thrown into the \<open>catch\<close> block.
\<close>

definition speak_settled :: "Scope \<Rightarrow> Outcomes \<Rightarrow> (string + unit) \<times> Sys \<Rightarrow> Sys" where
  "speak_settled sc oc settled =
     (case settled of
        (Inl e, sys1) \<Rightarrow> catch_block e sys1
      | (Inr u, sys1) \<Rightarrow> stage_summary sc oc sys1)"

definition stage_speak :: "Scope \<Rightarrow> string \<Rightarrow> Outcomes \<Rightarrow> Sys \<Rightarrow> Sys" where
  "stage_speak sc aiResponse oc sys =
     speak_settled sc oc (service_speak aiResponse (speak_outcome oc) sys)"

text \<open>Lines 163 to 173.\<close>

definition stage_saveAi :: "Scope \<Rightarrow> string \<Rightarrow> Outcomes \<Rightarrow> Sys \<Rightarrow> Sys" where
  "stage_saveAi sc aiResponse oc sys =
     (case sys of (s, w) \<Rightarrow>
        (let w1 = w\<lparr>trace := trace w @ [InsertMessage (aiMessage sc aiResponse)]\<rparr>
         in case saveMessage (saveAi_error oc) (aiMessage sc aiResponse) (db w1) of
              (Inl e, d) \<Rightarrow> catch_block e (s, w1)
            | (Inr savedAiMessage, d) \<Rightarrow>
                stage_speak sc aiResponse oc
                  (s\<lparr>messages := messages s @ [savedAiMessage], isProcessing := False\<rparr>,
                   w1\<lparr>db := d\<rparr>)))"

text \<open>Lines 150 to 161.\<close>

definition stage_generate :: "Scope \<Rightarrow> Message \<Rightarrow> Outcomes \<Rightarrow> Sys \<Rightarrow> Sys" where
  "stage_generate sc savedUserMessage oc sys =
     (case sys of (s, w) \<Rightarrow>
        (case geminiServiceInstance w of
           None \<Rightarrow>
             catch_block ''Gemini API is not configured. Please set your API key in settings.'' (s, w)
         | Some geminiService \<Rightarrow>
             (let allMessages = sc_messages sc @ [savedUserMessage];
                  w1 = w\<lparr>trace := trace w @ [SelectSummary (sc_sessionId sc)]\<rparr>
              in case getSummary (getSummary_error oc) (sc_sessionId sc) (db w1) of
                   Inl e \<Rightarrow> catch_block e (s, w1)
                 | Inr found \<Rightarrow>
                     (let summ = map_option summary found
                      in case generateResponse allMessages summ (http_response oc) geminiService of
                           (result, sent, g) \<Rightarrow>
                             (let w2 = w1\<lparr>trace := trace w1 @ map Fetch sent,
                                          geminiServiceInstance := Some g\<rparr>
                              in case result of
                                   Inl e \<Rightarrow> catch_block e (s, w2)
                                 | Inr aiResponse \<Rightarrow> stage_saveAi sc aiResponse oc (s, w2))))))"

text \<open>Lines 147 and 148: the answer to the insert of the user message.\<close>

definition handleUserSpeech_resume :: "Scope \<Rightarrow> string \<Rightarrow> Outcomes \<Rightarrow> Sys \<Rightarrow> Sys" where
  "handleUserSpeech_resume sc text oc sys =
     (case sys of (s, w) \<Rightarrow>
        (case saveMessage (saveUser_error oc) (userMessage sc text) (db w) of
           (Inl e, d) \<Rightarrow> catch_block e (s, w)
         | (Inr savedUserMessage, d) \<Rightarrow>
             stage_generate sc savedUserMessage oc
               (s\<lparr>messages := messages s @ [savedUserMessage]\<rparr>, w\<lparr>db := d\<rparr>)))"

text \<open>One call of \<open>handleUserSpeech\<close>, run from the guard to the end with nothing in between.\<close>

definition handleUserSpeech :: "Scope \<Rightarrow> string \<Rightarrow> Outcomes \<Rightarrow> Sys \<Rightarrow> Sys" where
  "handleUserSpeech sc text oc sys =
     (case handleUserSpeech_begin sc text sys of
        None \<Rightarrow> sys
      | Some sys1 \<Rightarrow> handleUserSpeech_resume sc text oc sys1)"

subsection \<open>The controls returned by the hook\<close>


definition stopListening :: "Scope \<Rightarrow> Sys \<Rightarrow> Sys" where
  "stopListening sc sys =
     (case sys of (s, w) \<Rightarrow>
        (let s1 = s\<lparr>isListening := False\<rparr>
         in (if \<not> sc_isSpeaking sc \<and> \<not> sc_isProcessing sc then s1\<lparr>avatarState := Idle\<rparr> else s1,
             w\<lparr>speech := service_stopListening (speech w)\<rparr>)))"


definition clearError :: "Sys \<Rightarrow> Sys" where
  "clearError sys = (case sys of (s, w) \<Rightarrow> (s\<lparr>error := None\<rparr>, w))"

subsection \<open>The effects\<close>

text \<open>
  The second effect (lines 68 to 122) builds a speech service and registers four callbacks
  created in the render that runs the effect. Its dependency list holds the three voice
  preferences only, so it runs after the first render and after a render in which one of
  them changed, and at no other time; before a run that is not the first, React runs the
  cleanup of the run before. \<open>supported\<close> says whether the browser has a recognition
  constructor. Every run makes a new service object.
\<close>

definition speech_effect :: "bool \<Rightarrow> Sys \<Rightarrow> Sys" where
  "speech_effect supported sys =
     (case sys of (s, w) \<Rightarrow>
        (s, w\<lparr>speech :=
               \<lparr>instance_id = Suc (instance_id (speech w)), recognition = supported,
                synthesis_present = synthesis_present (speech w), isListeningFlag = False,
                synthesis_speaking = synthesis_speaking (speech w),
                onTranscriptCallback = Some (render s), onErrorCallback = Some (render s),
                onSpeakingStartCallback = Some (render s),
                onSpeakingEndCallback = Some (render s)\<rparr>\<rparr>))"

definition speech_effect_cleanup :: "Sys \<Rightarrow> Sys" where
  "speech_effect_cleanup sys =
     (case sys of (s, w) \<Rightarrow>
        (let w1 = w\<lparr>speech := service_cleanup (speech w)\<rparr>
         in (s, case transcriptTimeoutRef s of Some t \<Rightarrow> clearTimeout t w1 | None \<Rightarrow> w1)))"

text \<open>The first effect (lines 44 to 66), with the session identifier it resolved.\<close>

definition session_effect :: "string \<Rightarrow> bool \<Rightarrow> string option \<Rightarrow> Sys \<Rightarrow> Sys" where
  "session_effect currentSession memory_enabled backend_error sys =
     (case sys of (s, w) \<Rightarrow>
        (let s1 = s\<lparr>sessionId := currentSession\<rparr>
         in if memory_enabled then
              (case getConversationMessages backend_error currentSession (db w) of
                 Inr loadedMessages \<Rightarrow> (s1\<lparr>messages := loadedMessages\<rparr>, w)
               | Inl e \<Rightarrow> (s1, w))
            else (s1, w)))"

text \<open>
  The hook after its first render and the first run of the speech effect, in a browser
  that has speech synthesis. Before that run there is no service; the record given to the
  effect stands for what the browser offers.
\<close>

definition mount :: "bool \<Rightarrow> Database \<Rightarrow> GeminiService option \<Rightarrow> Sys" where
  "mount supported d g =
     speech_effect supported
       (initial_state,
        \<lparr>db = d, geminiServiceInstance = g,
         speech = \<lparr>instance_id = 0, recognition = False, synthesis_present = True,
                   isListeningFlag = False, synthesis_speaking = False,
                   onTranscriptCallback = None, onErrorCallback = None,
                   onSpeakingStartCallback = None, onSpeakingEndCallback = None\<rparr>,
         timers = [], next_timer = 1, clock = 0, trace = []\<rparr>)"

subsection \<open>Timers and transcript events over time\<close>

text \<open>
  A timer callback, with the arguments of the calls of \<open>handleUserSpeech\<close> it makes (none
  or one). The call runs to its first \<open>await\<close> inside the callback.
\<close>

definition handleUserSpeech_enter :: "Scope \<Rightarrow> string \<Rightarrow> Sys \<Rightarrow> Sys" where
  "handleUserSpeech_enter sc text sys =
     (case handleUserSpeech_begin sc text sys of None \<Rightarrow> sys | Some sys1 \<Rightarrow> sys1)"

fun timer_callback :: "TimerCallback \<Rightarrow> Sys \<Rightarrow> string list \<times> Sys" where
  "timer_callback (FinalizeTimer sc text) sys = ([text], handleUserSpeech_enter sc text sys)"
| "timer_callback (SafetyTimer sc) sys =
     (if trim (pendingTranscriptRef (fst sys)) \<noteq> [] then
        ([trim (pendingTranscriptRef (fst sys))],
         handleUserSpeech_enter sc (trim (pendingTranscriptRef (fst sys))) sys)
      else ([], sys))"

text \<open>
  Letting \<open>d\<close> milliseconds pass. No timer callback sets a timer, so the timers that can
  fire in the interval are those pending at its start, in the order they fall due; one
  that an earlier callback cleared does not fire.
\<close>

fun fire_all :: "Timer list \<Rightarrow> Sys \<Rightarrow> string list \<times> Sys" where
  "fire_all [] sys = ([], sys)"
| "fire_all (t # ts) sys =
     (case sys of (s, w) \<Rightarrow>
        if timer_id t \<in> set (map timer_id (timers w)) then
          (case timer_callback (callback t)
                  (s, w\<lparr>timers := filter (\<lambda>x. timer_id x \<noteq> timer_id t) (timers w),
                        clock := max (clock w) (due t)\<rparr>) of
             (out, sys1) \<Rightarrow> (case fire_all ts sys1 of (outs, sys2) \<Rightarrow> (out @ outs, sys2)))
        else fire_all ts sys)"

definition elapse :: "nat \<Rightarrow> Sys \<Rightarrow> string list \<times> Sys" where
  "elapse d sys =
     (case sys of (s, w) \<Rightarrow>
        (case fire_all (sort_key due (filter (\<lambda>t. due t \<le> clock w + d) (timers w))) (s, w) of
           (outs, (s1, w1)) \<Rightarrow> (outs, (s1, w1\<lparr>clock := clock w + d\<rparr>))))"

datatype Event = TranscriptEvent string bool | Elapse nat

fun step :: "Event \<Rightarrow> Sys \<Rightarrow> string list \<times> Sys" where
  "step (TranscriptEvent transcript isFinal) sys = ([], recognition_result_event transcript isFinal sys)"
| "step (Elapse d) sys = elapse d sys"

text \<open>
  A run over a list of events: the utterances handed to \<open>handleUserSpeech\<close>, in order, and
  the final state.
\<close>

fun run :: "Event list \<Rightarrow> Sys \<Rightarrow> string list \<times> Sys" where
  "run [] sys = ([], sys)"
| "run (e # es) sys =
     (case step e sys of (out, sys1) \<Rightarrow> (case run es sys1 of (outs, sys2) \<Rightarrow> (out @ outs, sys2)))"

section \<open>Concrete inputs and auxiliary notions\<close>

definition empty_db :: Database where
  "empty_db = \<lparr>conversations = [], conversation_summaries = [], db_seq = 0\<rparr>"

text \<open>Every request of one pipeline run succeeds and the model answers \<open>reply\<close>.\<close>

definition all_succeed :: "string \<Rightarrow> Outcomes" where
  "all_succeed reply =
     \<lparr>saveUser_error = None, getSummary_error = None, http_response = Candidate reply,
      saveAi_error = None, speak_outcome = SpeakEnded, saveSummary_error = None\<rparr>"

text \<open>A freshly mounted hook in a supporting browser, with the Gemini service initialised.\<close>

definition fresh_hook :: Sys where
  "fresh_hook = mount True empty_db (Some (new_GeminiService ''key''))"

text \<open>
  The same hook one second after a final transcript \<open>first\<close>: the finalize timer has fired,
  \<open>handleUserSpeech\<close> has run to its first \<open>await\<close>, and the insert of the user message
  has not been answered yet.
\<close>

definition first_in_flight :: Sys where
  "first_in_flight = snd (run [TranscriptEvent ''first'' True, Elapse 1000] fresh_hook)"

text \<open>A stored conversation of \<open>n\<close> messages, and the hook that has loaded it.\<close>

definition history :: "string \<Rightarrow> nat \<Rightarrow> Message list" where
  "history sid n =
     map (\<lambda>i. \<lparr>msg_id = i, session_id = sid, role = (if even i then User else Assistant),
               content = ''earlier'', created_at = i\<rparr>) [0..<n]"

definition loaded_session :: "nat \<Rightarrow> Sys" where
  "loaded_session n =
     session_effect ''s1'' True None
       (mount True \<lparr>conversations = history ''s1'' n, conversation_summaries = [], db_seq = n\<rparr>
          (Some (new_GeminiService ''key'')))"

text \<open>
  One more utterance on a loaded session as the hook itself handles it: a final
  transcript, one second of silence, so that the finalize timer calls the closure that the
  speech effect registered at mount, and then the rest of that call with every request
  succeeding.
\<close>

definition spoken_on_loaded :: "nat \<Rightarrow> Sys" where
  "spoken_on_loaded n =
     handleUserSpeech_resume (render initial_state) ''one more'' (all_succeed ''ok'')
       (snd (run [TranscriptEvent ''one more'' True, Elapse 1000] (loaded_session n)))"


text \<open>
  The invariant of the finalizer: the transcript callback registered with the speech
  service is \<open>reg\<close>, at most one timer is pending, and a pending timer is the one that
  \<open>transcriptTimeoutRef\<close> names.
\<close>

definition finalizer_inv :: "Scope \<Rightarrow> Sys \<Rightarrow> bool" where
  "finalizer_inv reg sys =
     (case sys of (s, w) \<Rightarrow>
        onTranscriptCallback (speech w) = Some reg
        \<and> (case timers w of
              [] \<Rightarrow> True
            | t # ts \<Rightarrow> ts = [] \<and> transcriptTimeoutRef s = Some (timer_id t)))"

text \<open>Interim transcripts, each followed by a pause of the given length.\<close>

definition interim_burst :: "(string \<times> nat) list \<Rightarrow> Event list" where
  "interim_burst xs = concat (map (\<lambda>(t, gap). [TranscriptEvent t False, Elapse gap]) xs)"

text \<open>
  One more utterance on a loaded session, handled by a closure of the render that shows
  the loaded messages, with every request succeeding.
\<close>

definition submit_on_loaded :: "nat \<Rightarrow> Sys" where
  "submit_on_loaded n =
     handleUserSpeech (render (fst (loaded_session n))) ''one more'' (all_succeed ''ok'')
       (loaded_session n)"

text \<open>Calls of \<open>generateResponse\<close> made one after the other, none of them answered yet.\<close>

fun overlapping_calls :: "(Message list \<times> string option) list \<Rightarrow> GeminiService \<Rightarrow> GeminiService" where
  "overlapping_calls [] g = g"
| "overlapping_calls ((msgs, summ) # cs) g =
     overlapping_calls cs (snd (generateResponse_call msgs summ g))"

section \<open>The speech service: recognition errors\<close>

text \<open>
  C10. A recognition error event whose reason is \<open>no-speech\<close> or \<open>aborted\<close> makes no call
  of the error callback, and the hook's state stays as it was. For every other reason the
  handler calls the registered error callback, if there is one, with the message
  \<open>Speech recognition error: <reason>\<close>, which the hook then holds as its current error.
\<close>

theorem recognition_error_suppression:
  "(event_error = ''no-speech'' \<or> event_error = ''aborted'' \<longrightarrow>
      recognition_onerror (speech w) event_error = None
      \<and> recognition_error_event event_error (s, w) = (s, w))
   \<and> (event_error \<noteq> ''no-speech'' \<and> event_error \<noteq> ''aborted'' \<longrightarrow>
      recognition_onerror (speech w) event_error
        = map_option (\<lambda>cb. (cb, ''Speech recognition error: '' @ event_error))
            (onErrorCallback (speech w)))
   \<and> (event_error \<noteq> ''no-speech'' \<and> event_error \<noteq> ''aborted''
        \<and> onErrorCallback (speech w) \<noteq> None \<longrightarrow>
      error (fst (recognition_error_event event_error (s, w)))
        = Some (''Speech recognition error: '' @ event_error))"
  by (auto simp: recognition_onerror_def recognition_error_event_def deliver_error_def
      hook_onError_def split: option.splits)

lemma mount_onError: "onErrorCallback (speech (snd (mount b d g))) = Some (render initial_state)"
  by (simp add: mount_def speech_effect_def)

theorem recognition_error_suppression_witness:
  "recognition_error_event ''no-speech'' (mount True empty_db None) = mount True empty_db None
   \<and> recognition_error_event ''aborted'' (mount True empty_db None) = mount True empty_db None
   \<and> error (fst (recognition_error_event ''network'' (mount True empty_db None)))
       = Some ''Speech recognition error: network''"
proof -
  obtain s w where m: "mount True empty_db None = (s, w)"
    by (cases "mount True empty_db None")
  have cb: "onErrorCallback (speech w) \<noteq> None"
    using mount_onError [of True empty_db None] m by simp
  show ?thesis
    using recognition_error_suppression [of "''no-speech''" w s]
      recognition_error_suppression [of "''aborted''" w s]
      recognition_error_suppression [of "''network''" w s] cb m
    by simp
qed

section \<open>The Gemini service: context and request queue\<close>

lemma push_all_map: "push_all acc ms = acc @ map format_one ms"
  by (induction ms arbitrary: acc) simp_all

lemma slice_last_suffix: "suffix (slice_last k xs) xs"
  by (simp add: slice_last_def suffix_drop)

lemma slice_last_length: "length (slice_last k xs) = min k (length xs)"
  by (simp add: slice_last_def)

lemma formatMessages_shape:
  "formatMessages msgs summ
     = (case summ of
          None \<Rightarrow> []
        | Some t \<Rightarrow>
            if t = [] then []
            else [\<lparr>gc_role = ''user'', gc_text = ''[Previous conversation summary: '' @ t @ '']''\<rparr>])
       @ map format_one (slice_last 10 msgs)"
  by (simp add: formatMessages_def push_all_map Let_def)

lemma overlapping_calls_outstanding:
  "length (outstanding (overlapping_calls cs g)) = length (outstanding g) + length cs"
proof (induction cs arbitrary: g)
  case Nil
  then show ?case by simp
next
  case (Cons c cs)
  obtain msgs summ where c: "c = (msgs, summ)"
    by (cases c)
  have "length (outstanding (snd (generateResponse_call msgs summ g))) = Suc (length (outstanding g))"
    by (simp add: generateResponse_call_def Let_def)
  then show ?case
    using Cons.IH [of "snd (generateResponse_call msgs summ g)"] by (simp add: c)
qed

lemma overlapping_calls_queue:
  "length (requestQueue (overlapping_calls cs g)) = length (requestQueue g) + length cs"
proof (induction cs arbitrary: g)
  case Nil
  then show ?case by simp
next
  case (Cons c cs)
  obtain msgs summ where c: "c = (msgs, summ)"
    by (cases c)
  have "length (requestQueue (snd (generateResponse_call msgs summ g))) = Suc (length (requestQueue g))"
    by (simp add: generateResponse_call_def Let_def)
  then show ?case
    using Cons.IH [of "snd (generateResponse_call msgs summ g)"] by (simp add: c)
qed

text \<open>
  C9. \<open>generateResponse\<close> does not wait for the requests already in \<open>requestQueue\<close>: a call
  sends its HTTP request at once, whatever is outstanding. Any number of calls made
  before an answer arrives leaves that many more requests outstanding, and as many
  promises in the queue. After two calls on a new instance, neither of them answered, two
  requests are on the wire, with the payloads of both calls.
\<close>

theorem generateResponse_overlap:
  "outstanding (snd (generateResponse_call msgs summ g))
     = outstanding g @ [(next_request g, formatMessages msgs summ)]
   \<and> length (outstanding (overlapping_calls cs g)) = length (outstanding g) + length cs
   \<and> length (requestQueue (overlapping_calls cs g)) = length (requestQueue g) + length cs
   \<and> outstanding (overlapping_calls [(msgs1, summ1), (msgs2, summ2)] (new_GeminiService k))
       = [(0, formatMessages msgs1 summ1), (1, formatMessages msgs2 summ2)]
   \<and> requestQueue (overlapping_calls [(msgs1, summ1), (msgs2, summ2)] (new_GeminiService k))
       = [0, 1]"
  by (simp add: overlapping_calls_outstanding overlapping_calls_queue)
     (simp add: generateResponse_call_def new_GeminiService_def Let_def)

section \<open>The hook: end of playback\<close>






section \<open>The hook: handleUserSpeech\<close>

lemma handleUserSpeech_guard:
  "trim text = [] \<or> sc_isProcessing sc \<Longrightarrow> handleUserSpeech sc text oc sys = sys"
  by (cases sys) (auto simp: handleUserSpeech_def handleUserSpeech_begin_def)

lemma begin_passes:
  assumes "trim text \<noteq> []" and "\<not> sc_isProcessing sc"
  shows "handleUserSpeech_begin sc text (s, w)
           = Some (s\<lparr>transcriptTimeoutRef := None, currentTranscript := [],
                      pendingTranscriptRef := [], isListening := False, isProcessing := True,
                      avatarState := Thinking\<rparr>,
                   (case transcriptTimeoutRef s of Some t \<Rightarrow> clearTimeout t w | None \<Rightarrow> w)
                     \<lparr>speech := service_stopListening (speech w),
                      trace := trace w @ [InsertMessage (userMessage sc text)]\<rparr>)"
  using assms
  by (simp add: handleUserSpeech_begin_def Let_def clearTimeout_def split: option.splits)

lemma clear_fields:
  "db (case r of Some t \<Rightarrow> clearTimeout t w | None \<Rightarrow> w) = db w"
  "geminiServiceInstance (case r of Some t \<Rightarrow> clearTimeout t w | None \<Rightarrow> w)
     = geminiServiceInstance w"
  "trace (case r of Some t \<Rightarrow> clearTimeout t w | None \<Rightarrow> w) = trace w"
  "speech (case r of Some t \<Rightarrow> clearTimeout t w | None \<Rightarrow> w) = speech w"
  "clock (case r of Some t \<Rightarrow> clearTimeout t w | None \<Rightarrow> w) = clock w"
  "next_timer (case r of Some t \<Rightarrow> clearTimeout t w | None \<Rightarrow> w) = next_timer w"
  by (simp_all add: clearTimeout_def split: option.splits)

lemma fresh_hook_parts:
  "fst fresh_hook = initial_state"
  "db (snd fresh_hook) = empty_db"
  "geminiServiceInstance (snd fresh_hook) = Some (new_GeminiService ''key'')"
  "trace (snd fresh_hook) = []"
  by (simp_all add: fresh_hook_def mount_def speech_effect_def)

text \<open>
  C4. When the insert of the user message fails, the run ends in the \<open>catch\<close> block: the
  current error is the message of the storage error, the avatar state is \<open>Idle\<close> and
  \<open>isProcessing\<close> is false; the transcript and the store are unchanged; the Gemini service
  is untouched, and the one insert request is the only request the run has made (no
  fetch, no second insert).
\<close>

theorem user_save_failure_aborts:
  assumes "trim text \<noteq> []" and "\<not> sc_isProcessing sc" and "saveUser_error oc = Some e"
  shows "error (fst (handleUserSpeech sc text oc (s, w))) = Some (''Failed to save message: '' @ e)
       \<and> avatarState (fst (handleUserSpeech sc text oc (s, w))) = Idle
       \<and> isProcessing (fst (handleUserSpeech sc text oc (s, w))) = False
       \<and> messages (fst (handleUserSpeech sc text oc (s, w))) = messages s
       \<and> db (snd (handleUserSpeech sc text oc (s, w))) = db w
       \<and> geminiServiceInstance (snd (handleUserSpeech sc text oc (s, w))) = geminiServiceInstance w
       \<and> trace (snd (handleUserSpeech sc text oc (s, w)))
           = trace w @ [InsertMessage (userMessage sc text)]"
  by (simp add: handleUserSpeech_def begin_passes [OF assms(1,2)] handleUserSpeech_resume_def
      saveMessage_def assms(3) catch_block_def clear_fields)

theorem user_save_failure_aborts_witness:
  "error (fst (handleUserSpeech (render initial_state) ''hello''
                 ((all_succeed ''hi'')\<lparr>saveUser_error := Some ''connection lost''\<rparr>) fresh_hook))
     = Some ''Failed to save message: connection lost''
   \<and> avatarState (fst (handleUserSpeech (render initial_state) ''hello''
                 ((all_succeed ''hi'')\<lparr>saveUser_error := Some ''connection lost''\<rparr>) fresh_hook))
     = Idle
   \<and> trace (snd (handleUserSpeech (render initial_state) ''hello''
                 ((all_succeed ''hi'')\<lparr>saveUser_error := Some ''connection lost''\<rparr>) fresh_hook))
     = [InsertMessage \<lparr>new_session_id = [], new_role = User, new_content = ''hello''\<rparr>]
   \<and> conversations (db (snd (handleUserSpeech (render initial_state) ''hello''
                 ((all_succeed ''hi'')\<lparr>saveUser_error := Some ''connection lost''\<rparr>) fresh_hook)))
     = []"
proof -
  have t: "trim ''hello'' \<noteq> []"
    by (simp add: trim_def is_space_def)
  have p: "\<not> sc_isProcessing (render initial_state)"
    by (simp add: render_def initial_state_def)
  have f: "saveUser_error ((all_succeed ''hi'')\<lparr>saveUser_error := Some ''connection lost''\<rparr>)
             = Some ''connection lost''"
    by simp
  obtain s w where m: "fresh_hook = (s, w)"
    by (cases fresh_hook)
  have parts: "trace w = []" "db w = empty_db"
    using fresh_hook_parts unfolding m by simp_all
  show ?thesis
    using user_save_failure_aborts [OF t p f, of s w]
    by (simp add: m parts userMessage_def render_def initial_state_def empty_db_def)
qed

text \<open>
  C5. When the Gemini request fails after the user message was stored, the stored row
  stays: the store holds it as its newest row, \<open>getConversationMessages\<close> for the session
  returns it, and the transcript holds it. The error of the request is the current
  error, the avatar state is \<open>Idle\<close> and \<open>isProcessing\<close> is false.
\<close>

theorem generation_failure_keeps_user_message:
  assumes "trim text \<noteq> []" and "\<not> sc_isProcessing sc"
    and "saveUser_error oc = None" and "geminiServiceInstance w = Some g"
    and "getSummary_error oc = None" and "makeRequest_result (http_response oc) = Inl e"
  shows "conversations (db (snd (handleUserSpeech sc text oc (s, w))))
           = conversations (db w) @ [stored_row (userMessage sc text) (db w)]
       \<and> (case getConversationMessages None (sc_sessionId sc)
                  (db (snd (handleUserSpeech sc text oc (s, w)))) of
             Inr rows \<Rightarrow> stored_row (userMessage sc text) (db w) \<in> set rows
           | Inl failure \<Rightarrow> False)
       \<and> messages (fst (handleUserSpeech sc text oc (s, w)))
           = messages s @ [stored_row (userMessage sc text) (db w)]
       \<and> error (fst (handleUserSpeech sc text oc (s, w))) = Some e
       \<and> avatarState (fst (handleUserSpeech sc text oc (s, w))) = Idle
       \<and> isProcessing (fst (handleUserSpeech sc text oc (s, w))) = False"
  by (simp add: handleUserSpeech_def begin_passes [OF assms(1,2)] handleUserSpeech_resume_def
      saveMessage_def assms(3-6) catch_block_def clear_fields stage_generate_def Let_def
      getSummary_def generateResponse_def generateResponse_call_def generateResponse_settle_def
      getConversationMessages_def stored_row_def userMessage_def)

theorem generation_failure_keeps_user_message_witness:
  "conversations (db (snd (handleUserSpeech (render initial_state) ''hello''
                 ((all_succeed ''hi'')\<lparr>http_response := NoCandidates\<rparr>) fresh_hook)))
     = [\<lparr>msg_id = 0, session_id = [], role = User, content = ''hello'', created_at = 0\<rparr>]
   \<and> error (fst (handleUserSpeech (render initial_state) ''hello''
                 ((all_succeed ''hi'')\<lparr>http_response := NoCandidates\<rparr>) fresh_hook))
     = Some ''No response generated from Gemini API''
   \<and> avatarState (fst (handleUserSpeech (render initial_state) ''hello''
                 ((all_succeed ''hi'')\<lparr>http_response := NoCandidates\<rparr>) fresh_hook))
     = Idle"
proof -
  have t: "trim ''hello'' \<noteq> []"
    by (simp add: trim_def is_space_def)
  have p: "\<not> sc_isProcessing (render initial_state)"
    by (simp add: render_def initial_state_def)
  have u: "saveUser_error ((all_succeed ''hi'')\<lparr>http_response := NoCandidates\<rparr>) = None"
    and q: "getSummary_error ((all_succeed ''hi'')\<lparr>http_response := NoCandidates\<rparr>) = None"
    by (simp_all add: all_succeed_def)
  have r: "makeRequest_result (http_response ((all_succeed ''hi'')\<lparr>http_response := NoCandidates\<rparr>))
             = Inl ''No response generated from Gemini API''"
    by (simp add: makeRequest_result_def)
  obtain s w where m: "fresh_hook = (s, w)"
    by (cases fresh_hook)
  have parts: "db w = empty_db" "geminiServiceInstance w = Some (new_GeminiService ''key'')"
    using fresh_hook_parts unfolding m by simp_all
  show ?thesis
    using generation_failure_keeps_user_message [OF t p u parts(2) q r, of s]
    by (simp add: m parts userMessage_def stored_row_def render_def initial_state_def
        empty_db_def)
qed

lemma handleUserSpeech_success:
  assumes "trim text \<noteq> []" and "\<not> sc_isProcessing sc"
    and "saveUser_error oc = None" and "geminiServiceInstance w = Some g"
    and "getSummary_error oc = None" and "http_response oc = Candidate reply"
    and "saveAi_error oc = None" and "speak_outcome oc = SpeakEnded"
    and "saveSummary_error oc = None"
  shows "trace (snd (handleUserSpeech sc text oc (s, w)))
           = trace w
             @ [InsertMessage (userMessage sc text),
                SelectSummary (sc_sessionId sc),
                Fetch (formatMessages (sc_messages sc @ [stored_row (userMessage sc text) (db w)])
                         (map_option summary
                            (find (\<lambda>r. summary_session_id r = sc_sessionId sc)
                               (conversation_summaries (db w))))),
                InsertMessage (aiMessage sc reply),
                Utter reply]
             @ (if 20 < length (sc_messages sc) then [UpsertSummary (summary_payload sc)] else [])"
    and "length (messages (fst (handleUserSpeech sc text oc (s, w)))) = length (messages s) + 2"
    and "map content (messages (fst (handleUserSpeech sc text oc (s, w))))
           = map content (messages s) @ [text, reply]"
    and "map content (conversations (db (snd (handleUserSpeech sc text oc (s, w)))))
           = map content (conversations (db w)) @ [text, reply]"
    and "map message_count (conversation_summaries (db (snd (handleUserSpeech sc text oc (s, w)))))
           = (if 20 < length (sc_messages sc)
              then map message_count
                     (upsert_summary
                        \<lparr>summary_session_id = sc_sessionId sc, summary = ns_summary (summary_payload sc),
                         message_count = length (sc_messages sc), updated_at = db_seq (db w) + 2\<rparr>
                        (conversation_summaries (db w)))
              else map message_count (conversation_summaries (db w)))"
  by (simp_all add: handleUserSpeech_def begin_passes [OF assms(1,2)] handleUserSpeech_resume_def
      saveMessage_def assms(3-9) catch_block_def clear_fields stage_generate_def Let_def
      getSummary_def generateResponse_def generateResponse_call_def generateResponse_settle_def
      makeRequest_result_def stage_saveAi_def stage_speak_def speak_settled_def
      service_speak_def utterance_onstart_def utterance_onend_def utterance_finished_def
      start_callback_def end_callback_def stage_summary_def saveSummary_def
      stored_row_def userMessage_def aiMessage_def summary_payload_def
      hook_onSpeakingStart_def hook_onSpeakingEnd_def split: option.splits)

lemma history_length: "length (history sid n) = n"
  by (simp add: history_def)

lemma history_loaded:
  "sort_key created_at (filter (\<lambda>m. session_id m = sid) (history sid n)) = history sid n"
proof -
  have f: "filter (\<lambda>m. session_id m = sid) (history sid n) = history sid n"
    by (simp add: history_def)
  have "map created_at (history sid n) = [0..<n]"
    by (simp add: history_def o_def)
  then have "sorted (map created_at (history sid n))"
    by simp
  then show ?thesis
    by (simp add: f sort_key_id_if_sorted)
qed

lemma loaded_session_parts:
  "messages (fst (loaded_session n)) = history ''s1'' n"
  "sessionId (fst (loaded_session n)) = ''s1''"
  "isProcessing (fst (loaded_session n)) = False"
  "geminiServiceInstance (snd (loaded_session n)) = Some (new_GeminiService ''key'')"
  "conversation_summaries (db (snd (loaded_session n))) = []"
  "trace (snd (loaded_session n)) = []"
  by (simp_all add: loaded_session_def session_effect_def mount_def speech_effect_def
      getConversationMessages_def history_loaded initial_state_def Let_def)

lemma rerun_registers_current_render:
  "onTranscriptCallback (speech (snd (speech_effect b (speech_effect_cleanup (s, w)))))
     = Some (render s)"
  by (simp add: speech_effect_def speech_effect_cleanup_def Let_def)

lemma show_nat_25: "show_nat 25 = ''25''"
  by code_simp

text \<open>
  C1. The summary step reads \<open>messages.length\<close> of the handler's scope, which is the
  transcript as it was before the run appended the user message and the reply. On a
  session of 25 messages a successful submission leaves a transcript of 27 messages and
  upserts a summary whose \<open>message_count\<close> is 25. On a session of 19 messages the
  transcript grows to 21 and no summary is upserted.
\<close>

theorem summary_counts_snapshot:
  "length (messages (fst (loaded_session 25))) = 25
   \<and> length (messages (fst (submit_on_loaded 25))) = 27
   \<and> last (trace (snd (submit_on_loaded 25)))
       = UpsertSummary
           \<lparr>ns_session_id = ''s1'',
            ns_summary = ''Conversation with 25 messages. Recent topics discussed.'',
            ns_message_count = 25\<rparr>
   \<and> map message_count (conversation_summaries (db (snd (submit_on_loaded 25)))) = [25]
   \<and> length (messages (fst (submit_on_loaded 19))) = 21
   \<and> last (trace (snd (submit_on_loaded 19))) = Utter ''ok''
   \<and> conversation_summaries (db (snd (submit_on_loaded 19))) = []"
proof -
  have t: "trim ''one more'' \<noteq> []"
    by (simp add: trim_def is_space_def)
  have o: "saveUser_error (all_succeed ''ok'') = None" "getSummary_error (all_succeed ''ok'') = None"
    "http_response (all_succeed ''ok'') = Candidate ''ok''" "saveAi_error (all_succeed ''ok'') = None"
    "speak_outcome (all_succeed ''ok'') = SpeakEnded" "saveSummary_error (all_succeed ''ok'') = None"
    by (simp_all add: all_succeed_def)
  have run: "trace (snd (submit_on_loaded n))
               = [InsertMessage (userMessage (render (fst (loaded_session n))) ''one more''),
                  SelectSummary ''s1'',
                  Fetch (formatMessages
                           (history ''s1'' n
                            @ [stored_row (userMessage (render (fst (loaded_session n))) ''one more'')
                                 (db (snd (loaded_session n)))])
                           None),
                  InsertMessage (aiMessage (render (fst (loaded_session n))) ''ok''),
                  Utter ''ok'']
                 @ (if 20 < n then [UpsertSummary (summary_payload (render (fst (loaded_session n))))]
                    else [])"
    and len: "length (messages (fst (submit_on_loaded n))) = n + 2"
    and cnt: "map message_count (conversation_summaries (db (snd (submit_on_loaded n))))
               = (if 20 < n then [n] else [])" for n
  proof -
    obtain s w where m: "loaded_session n = (s, w)"
      by (cases "loaded_session n")
    have parts: "messages s = history ''s1'' n" "sessionId s = ''s1''" "isProcessing s = False"
      "geminiServiceInstance w = Some (new_GeminiService ''key'')"
      "conversation_summaries (db w) = []" "trace w = []"
      using loaded_session_parts [of n] unfolding m by simp_all
    have p: "\<not> sc_isProcessing (render s)"
      by (simp add: render_def parts)
    note ok = handleUserSpeech_success [OF t p o(1) parts(4) o(2-6), of s]
    show "trace (snd (submit_on_loaded n))
               = [InsertMessage (userMessage (render (fst (loaded_session n))) ''one more''),
                  SelectSummary ''s1'',
                  Fetch (formatMessages
                           (history ''s1'' n
                            @ [stored_row (userMessage (render (fst (loaded_session n))) ''one more'')
                                 (db (snd (loaded_session n)))])
                           None),
                  InsertMessage (aiMessage (render (fst (loaded_session n))) ''ok''),
                  Utter ''ok'']
                 @ (if 20 < n then [UpsertSummary (summary_payload (render (fst (loaded_session n))))]
                    else [])"
      using ok(1) by (simp add: submit_on_loaded_def m parts render_def history_length)
    show "length (messages (fst (submit_on_loaded n))) = n + 2"
      using ok(2) by (simp add: submit_on_loaded_def m parts history_length)
    show "map message_count (conversation_summaries (db (snd (submit_on_loaded n))))
               = (if 20 < n then [n] else [])"
      using ok(5) by (simp add: submit_on_loaded_def m parts render_def history_length)
  qed
  have payload: "summary_payload (render (fst (loaded_session 25)))
                   = \<lparr>ns_session_id = ''s1'',
                      ns_summary = ''Conversation with 25 messages. Recent topics discussed.'',
                      ns_message_count = 25\<rparr>"
    by (simp add: summary_payload_def render_def loaded_session_parts history_length show_nat_25)
  show ?thesis
    using run [of 25] run [of 19] len [of 25] len [of 19] cnt [of 25] cnt [of 19]
    by (simp add: loaded_session_parts history_length payload)
qed

text \<open>
  C2. The guard of \<open>handleUserSpeech\<close> reads the \<open>isProcessing\<close> constant of the render that
  created the closure. The only callers are the timer callbacks of the transcript handler,
  which the speech effect registers after the first render; their \<open>handleUserSpeech\<close> is
  that render's, with \<open>isProcessing = false\<close>. While the first utterance is in flight (state
  \<open>isProcessing\<close> true, avatar thinking) a second final transcript is handed to
  \<open>handleUserSpeech\<close> one second later, passes the guard, and makes a second insert
  request; run to its end, that call stores the message, calls Gemini and speaks.
\<close>

theorem stale_guard_admits_second_utterance:
  "isProcessing (fst first_in_flight) = True
   \<and> avatarState (fst first_in_flight) = Thinking
   \<and> onTranscriptCallback (speech (snd first_in_flight)) = Some (render initial_state)
   \<and> trace (snd first_in_flight)
       = [InsertMessage \<lparr>new_session_id = [], new_role = User, new_content = ''first''\<rparr>]
   \<and> fst (run [TranscriptEvent ''second'' True, Elapse 1000] first_in_flight) = [''second'']
   \<and> trace (snd (snd (run [TranscriptEvent ''second'' True, Elapse 1000] first_in_flight)))
       = [InsertMessage \<lparr>new_session_id = [], new_role = User, new_content = ''first''\<rparr>,
          InsertMessage \<lparr>new_session_id = [], new_role = User, new_content = ''second''\<rparr>]
   \<and> trace (snd (handleUserSpeech (render initial_state) ''second'' (all_succeed ''reply'')
                    first_in_flight))
       = [InsertMessage \<lparr>new_session_id = [], new_role = User, new_content = ''first''\<rparr>,
          InsertMessage \<lparr>new_session_id = [], new_role = User, new_content = ''second''\<rparr>,
          SelectSummary [],
          Fetch [\<lparr>gc_role = ''user'', gc_text = ''second''\<rparr>],
          InsertMessage \<lparr>new_session_id = [], new_role = Assistant, new_content = ''reply''\<rparr>,
          Utter ''reply'']
   \<and> map content (conversations (db (snd (handleUserSpeech (render initial_state) ''second''
                    (all_succeed ''reply'') first_in_flight))))
       = [''second'', ''reply'']"
  by (simp add: first_in_flight_def fresh_hook_def mount_def speech_effect_def initial_state_def
      render_def empty_db_def new_GeminiService_def all_succeed_def
      recognition_result_event_def recognition_onresult_def hook_onTranscript_def
      trim_def is_space_def setTimeout_def clearTimeout_def elapse_def
      handleUserSpeech_enter_def handleUserSpeech_begin_def service_stopListening_def
      userMessage_def aiMessage_def handleUserSpeech_def handleUserSpeech_resume_def
      saveMessage_def stored_row_def stage_generate_def getSummary_def generateResponse_def
      generateResponse_call_def generateResponse_settle_def makeRequest_result_def
      formatMessages_def slice_last_def format_one_def stage_saveAi_def stage_speak_def
      speak_settled_def service_speak_def service_stopSpeaking_def utterance_onstart_def
      utterance_onend_def utterance_finished_def start_callback_def end_callback_def
      hook_onSpeakingStart_def hook_onSpeakingEnd_def stage_summary_def Let_def)

lemma loaded_session_eq:
  "loaded_session n
     = (initial_state\<lparr>sessionId := ''s1'', messages := history ''s1'' n\<rparr>,
        snd (mount True \<lparr>conversations = history ''s1'' n, conversation_summaries = [], db_seq = n\<rparr>
               (Some (new_GeminiService ''key''))))"
  by (simp add: loaded_session_def session_effect_def mount_def speech_effect_def
      getConversationMessages_def history_loaded Let_def)

lemma formatMessages_length:
  "length (formatMessages msgs None) = min 10 (length msgs)"
  by (simp add: formatMessages_shape slice_last_length)

text \<open>
  C8. \<open>formatMessages\<close> sends the last ten of the messages it is given, but
  \<open>handleUserSpeech\<close> gives it \<open>[...messages, savedUserMessage]\<close> with the \<open>messages\<close> of the
  closure's render. The closure that the timers call is the one registered at mount, whose
  \<open>messages\<close> is empty. On a session of 25 loaded messages, one more utterance leaves a
  transcript of 27 messages, and the one request sent to Gemini carries the new user
  message alone, where the last ten messages of the session would be ten entries.
\<close>

theorem stale_messages_reach_generator:
  "length (messages (fst (loaded_session 25))) = 25
   \<and> onTranscriptCallback (speech (snd (loaded_session 25))) = Some (render initial_state)
   \<and> sc_messages (render initial_state) = []
   \<and> fst (run [TranscriptEvent ''one more'' True, Elapse 1000] (loaded_session 25)) = [''one more'']
   \<and> trace (snd (spoken_on_loaded 25))
       = [InsertMessage \<lparr>new_session_id = [], new_role = User, new_content = ''one more''\<rparr>,
          SelectSummary [],
          Fetch [\<lparr>gc_role = ''user'', gc_text = ''one more''\<rparr>],
          InsertMessage \<lparr>new_session_id = [], new_role = Assistant, new_content = ''ok''\<rparr>,
          Utter ''ok'']
   \<and> length (messages (fst (spoken_on_loaded 25))) = 27
   \<and> length (formatMessages (take 26 (messages (fst (spoken_on_loaded 25)))) None) = 10"
proof -
  have run: "length (messages (fst (loaded_session 25))) = 25
   \<and> onTranscriptCallback (speech (snd (loaded_session 25))) = Some (render initial_state)
   \<and> sc_messages (render initial_state) = []
   \<and> fst (run [TranscriptEvent ''one more'' True, Elapse 1000] (loaded_session 25)) = [''one more'']
   \<and> trace (snd (spoken_on_loaded 25))
       = [InsertMessage \<lparr>new_session_id = [], new_role = User, new_content = ''one more''\<rparr>,
          SelectSummary [],
          Fetch [\<lparr>gc_role = ''user'', gc_text = ''one more''\<rparr>],
          InsertMessage \<lparr>new_session_id = [], new_role = Assistant, new_content = ''ok''\<rparr>,
          Utter ''ok'']
   \<and> length (messages (fst (spoken_on_loaded 25))) = 27"
    by (simp add: spoken_on_loaded_def loaded_session_eq history_length
        mount_def speech_effect_def initial_state_def
        render_def new_GeminiService_def all_succeed_def
        recognition_result_event_def recognition_onresult_def hook_onTranscript_def
        trim_def is_space_def setTimeout_def clearTimeout_def elapse_def
        handleUserSpeech_enter_def handleUserSpeech_begin_def service_stopListening_def
        userMessage_def aiMessage_def handleUserSpeech_resume_def
        saveMessage_def stored_row_def stage_generate_def getSummary_def generateResponse_def
        generateResponse_call_def generateResponse_settle_def makeRequest_result_def
        formatMessages_def slice_last_def format_one_def stage_saveAi_def stage_speak_def
        speak_settled_def service_speak_def service_stopSpeaking_def utterance_onstart_def
        utterance_onend_def utterance_finished_def start_callback_def end_callback_def
        hook_onSpeakingStart_def hook_onSpeakingEnd_def stage_summary_def Let_def)
  then have "length (take 26 (messages (fst (spoken_on_loaded 25)))) = 26"
    by simp
  then have ctx: "length (formatMessages (take 26 (messages (fst (spoken_on_loaded 25)))) None) = 10"
    by (simp only: formatMessages_length)
  from run ctx show ?thesis
    by blast
qed

section \<open>The finalizer: transcript events and timers\<close>

lemma mount_inv: "finalizer_inv (render initial_state) (mount b d g)"
  by (simp add: finalizer_inv_def mount_def speech_effect_def)

lemma clear_referenced:
  assumes "finalizer_inv reg (s, w)"
  shows "timers (case transcriptTimeoutRef s of Some t \<Rightarrow> clearTimeout t w | None \<Rightarrow> w) = []"
  using assms
  by (auto simp: finalizer_inv_def clearTimeout_def split: list.splits option.splits)

lemma transcript_event_timers:
  assumes "finalizer_inv reg (s, w)"
  shows "timers (snd (recognition_result_event t f (s, w)))
           = (if f \<and> trim t \<noteq> [] then
                [\<lparr>timer_id = next_timer w, due = clock w + 1000,
                  callback = FinalizeTimer reg (trim t)\<rparr>]
              else if \<not> f then
                [\<lparr>timer_id = next_timer w, due = clock w + 2000, callback = SafetyTimer reg\<rparr>]
              else [])"
    and "pendingTranscriptRef (fst (recognition_result_event t f (s, w))) = t"
    and "clock (snd (recognition_result_event t f (s, w))) = clock w"
    and "finalizer_inv reg (recognition_result_event t f (s, w))"
proof -
  have cb: "onTranscriptCallback (speech w) = Some reg"
    using assms by (simp add: finalizer_inv_def)
  have e: "recognition_result_event t f (s, w) = hook_onTranscript reg t f (s, w)"
    by (simp add: recognition_result_event_def recognition_onresult_def cb)
  note c = clear_referenced [OF assms] clear_fields
  show "timers (snd (recognition_result_event t f (s, w)))
           = (if f \<and> trim t \<noteq> [] then
                [\<lparr>timer_id = next_timer w, due = clock w + 1000,
                  callback = FinalizeTimer reg (trim t)\<rparr>]
              else if \<not> f then
                [\<lparr>timer_id = next_timer w, due = clock w + 2000, callback = SafetyTimer reg\<rparr>]
              else [])"
    by (simp add: e hook_onTranscript_def Let_def setTimeout_def c)
  show "pendingTranscriptRef (fst (recognition_result_event t f (s, w))) = t"
    by (simp add: e hook_onTranscript_def Let_def setTimeout_def)
  show "clock (snd (recognition_result_event t f (s, w))) = clock w"
    by (simp add: e hook_onTranscript_def Let_def setTimeout_def c)
  show "finalizer_inv reg (recognition_result_event t f (s, w))"
    by (simp add: e hook_onTranscript_def Let_def setTimeout_def c finalizer_inv_def cb)
qed

lemma enter_keeps:
  assumes "timers w = []"
  shows "timers (snd (handleUserSpeech_enter sc text (s, w))) = []"
    and "onTranscriptCallback (speech (snd (handleUserSpeech_enter sc text (s, w))))
           = onTranscriptCallback (speech w)"
  using assms
  by (simp_all add: handleUserSpeech_enter_def handleUserSpeech_begin_def Let_def
      clearTimeout_def service_stopListening_def split: option.splits)

lemma callback_keeps:
  assumes "timers w = []"
  shows "timers (snd (snd (timer_callback c (s, w)))) = []"
    and "onTranscriptCallback (speech (snd (snd (timer_callback c (s, w)))))
           = onTranscriptCallback (speech w)"
  using assms by (cases c; simp add: enter_keeps)+

lemma elapse_none:
  assumes "timers w = []"
  shows "elapse d (s, w) = ([], (s, w\<lparr>clock := clock w + d\<rparr>))"
  using assms by (simp add: elapse_def)

lemma elapse_single:
  assumes "timers w = [t]"
  shows "elapse d (s, w)
           = (if due t \<le> clock w + d then
                (case timer_callback (callback t)
                        (s, w\<lparr>timers := [], clock := max (clock w) (due t)\<rparr>) of
                   (out, (s1, w1)) \<Rightarrow> (out, (s1, w1\<lparr>clock := clock w + d\<rparr>)))
              else ([], (s, w\<lparr>clock := clock w + d\<rparr>)))"
  using assms by (simp add: elapse_def split: prod.splits)

lemma elapse_inv:
  assumes "finalizer_inv reg (s, w)"
  shows "finalizer_inv reg (snd (elapse d (s, w)))"
proof (cases "timers w")
  case Nil
  then show ?thesis using assms by (simp add: elapse_none finalizer_inv_def)
next
  case (Cons t ts)
  then have single: "timers w = [t]"
    using assms by (simp add: finalizer_inv_def)
  show ?thesis
  proof (cases "due t \<le> clock w + d")
    case False
    then show ?thesis using assms single by (simp add: elapse_single finalizer_inv_def)
  next
    case True
    obtain out s1 w1 where r:
      "timer_callback (callback t) (s, w\<lparr>timers := [], clock := max (clock w) (due t)\<rparr>)
         = (out, (s1, w1))"
      by (metis prod.exhaust)
    have "timers w1 = []" "onTranscriptCallback (speech w1) = Some reg"
      using callback_keeps [of "w\<lparr>timers := [], clock := max (clock w) (due t)\<rparr>" "callback t" s]
        r assms by (simp_all add: finalizer_inv_def)
    then show ?thesis using True single r by (simp add: elapse_single finalizer_inv_def)
  qed
qed

lemma step_inv: "finalizer_inv reg sys \<Longrightarrow> finalizer_inv reg (snd (step e sys))"
  by (cases e; cases sys) (simp_all add: transcript_event_timers(4) elapse_inv)

lemma run_inv: "finalizer_inv reg sys \<Longrightarrow> finalizer_inv reg (snd (run es sys))"
proof (induction es arbitrary: sys)
  case Nil
  then show ?case by simp
next
  case (Cons e es)
  then show ?case
    using step_inv [of reg sys e] by (simp split: prod.splits) (metis snd_conv)
qed

lemma run_append:
  "run (xs @ ys) sys
     = (case run xs sys of (o1, sys1) \<Rightarrow> (case run ys sys1 of (o2, sys2) \<Rightarrow> (o1 @ o2, sys2)))"
  by (induction xs arbitrary: sys) (simp_all split: prod.splits)

lemma run_append_fst:
  "fst (run (xs @ ys) sys) = fst (run xs sys) @ fst (run ys (snd (run xs sys)))"
  by (simp add: run_append split: prod.splits)

lemma run_append_snd: "snd (run (xs @ ys) sys) = snd (run ys (snd (run xs sys)))"
  by (simp add: run_append split: prod.splits)

lemma final_event_silence:
  assumes "finalizer_inv reg sys" and "trim raw \<noteq> []"
  shows "fst (run [TranscriptEvent raw True, Elapse d] sys) = (if 1000 \<le> d then [trim raw] else [])"
    and "1000 \<le> d \<Longrightarrow> timers (snd (snd (run [TranscriptEvent raw True, Elapse d] sys))) = []"
proof -
  obtain s w where sys: "sys = (s, w)"
    by (cases sys)
  obtain s1 w1 where ev: "recognition_result_event raw True (s, w) = (s1, w1)"
    by (metis prod.exhaust)
  have tm: "timers w1 = [\<lparr>timer_id = next_timer w, due = clock w + 1000,
                          callback = FinalizeTimer reg (trim raw)\<rparr>]"
    and ck: "clock w1 = clock w"
    using transcript_event_timers(1,3) [of reg s w raw True] assms ev sys by simp_all
  obtain s2 w2 where en:
    "handleUserSpeech_enter reg (trim raw) (s1, w1\<lparr>timers := [], clock := clock w + 1000\<rparr>)
       = (s2, w2)"
    by (metis prod.exhaust)
  have t2: "timers w2 = []"
    using enter_keeps(1) [of "w1\<lparr>timers := [], clock := clock w + 1000\<rparr>" reg "trim raw" s1] en
    by simp
  show "fst (run [TranscriptEvent raw True, Elapse d] sys) = (if 1000 \<le> d then [trim raw] else [])"
    by (simp add: sys ev elapse_single [OF tm] ck en)
  show "1000 \<le> d \<Longrightarrow> timers (snd (snd (run [TranscriptEvent raw True, Elapse d] sys))) = []"
    by (simp add: sys ev elapse_single [OF tm] ck en t2)
qed

lemma empty_final_event:
  assumes "finalizer_inv reg sys" and "trim raw = []"
  shows "timers (snd (snd (run [TranscriptEvent raw True] sys))) = []"
    and "fst (run [TranscriptEvent raw True, Elapse d] sys) = []"
proof -
  obtain s w where sys: "sys = (s, w)"
    by (cases sys)
  obtain s1 w1 where ev: "recognition_result_event raw True (s, w) = (s1, w1)"
    by (metis prod.exhaust)
  have tm: "timers w1 = []"
    using transcript_event_timers(1) [of reg s w raw True] assms ev sys by simp
  show "timers (snd (snd (run [TranscriptEvent raw True] sys))) = []"
    by (simp add: sys ev tm)
  show "fst (run [TranscriptEvent raw True, Elapse d] sys) = []"
    by (simp add: sys ev elapse_none [OF tm])
qed

lemma silence_without_timer:
  assumes "timers (snd sys) = []"
  shows "fst (run [Elapse d] sys) = []"
  using assms by (cases sys) (simp add: elapse_none)

lemma interim_event_silence:
  assumes "finalizer_inv reg sys"
  shows "fst (run [TranscriptEvent t False, Elapse d] sys)
           = (if 2000 \<le> d \<and> trim t \<noteq> [] then [trim t] else [])"
    and "2000 \<le> d \<Longrightarrow> timers (snd (snd (run [TranscriptEvent t False, Elapse d] sys))) = []"
proof -
  obtain s w where sys: "sys = (s, w)"
    by (cases sys)
  obtain s1 w1 where ev: "recognition_result_event t False (s, w) = (s1, w1)"
    by (metis prod.exhaust)
  have tm: "timers w1 = [\<lparr>timer_id = next_timer w, due = clock w + 2000, callback = SafetyTimer reg\<rparr>]"
    and ck: "clock w1 = clock w" and pt: "pendingTranscriptRef s1 = t"
    using transcript_event_timers(1,2,3) [of reg s w t False] assms ev sys by simp_all
  obtain s2 w2 where en:
    "handleUserSpeech_enter reg (trim t) (s1, w1\<lparr>timers := [], clock := clock w + 2000\<rparr>)
       = (s2, w2)"
    by (metis prod.exhaust)
  have t2: "timers w2 = []"
    using enter_keeps(1) [of "w1\<lparr>timers := [], clock := clock w + 2000\<rparr>" reg "trim t" s1] en
    by simp
  show "fst (run [TranscriptEvent t False, Elapse d] sys)
           = (if 2000 \<le> d \<and> trim t \<noteq> [] then [trim t] else [])"
    by (simp add: sys ev elapse_single [OF tm] ck pt en)
  show "2000 \<le> d \<Longrightarrow> timers (snd (snd (run [TranscriptEvent t False, Elapse d] sys))) = []"
    by (simp add: sys ev elapse_single [OF tm] ck pt en t2)
qed

lemma interim_burst_silent:
  assumes "finalizer_inv reg sys" and "list_all (\<lambda>(t, gap). gap < 2000) xs"
  shows "fst (run (interim_burst xs) sys) = []"
  using assms
proof (induction xs arbitrary: sys)
  case Nil
  then show ?case by (simp add: interim_burst_def)
next
  case (Cons x xs)
  obtain t gap where x: "x = (t, gap)"
    by (cases x)
  have gap: "gap < 2000" and rest: "list_all (\<lambda>(t, gap). gap < 2000) xs"
    using Cons.prems(2) x by simp_all
  have split: "interim_burst (x # xs) = [TranscriptEvent t False, Elapse gap] @ interim_burst xs"
    by (simp add: interim_burst_def x)
  have first: "fst (run [TranscriptEvent t False, Elapse gap] sys) = []"
    using interim_event_silence(1) [OF Cons.prems(1), of t gap] gap by simp
  have inv: "finalizer_inv reg (snd (run [TranscriptEvent t False, Elapse gap] sys))"
    by (rule run_inv [OF Cons.prems(1)])
  show ?case
    unfolding split run_append_fst
    using first Cons.IH [OF inv rest] by simp
qed

text \<open>
  C6. After any run of transcript events and pauses on a mounted hook, a final transcript
  whose trimmed text \<open>T\<close> is not empty, followed by a pause of \<open>d\<close> milliseconds with no
  further event, hands exactly \<open>T\<close> to \<open>handleUserSpeech\<close> if \<open>d\<close> is at least 1000 and nothing
  otherwise; a longer silence hands over nothing more. A final transcript whose trimmed
  text is empty leaves no timer pending and nothing is handed over. At every moment at
  most one timer is pending, and after a transcript event the timers pending are exactly
  the one that event started, if it started one: every earlier timer is cancelled.
\<close>

theorem finalize_delay_debounce:
  "(trim raw \<noteq> [] \<longrightarrow>
      fst (run (evs @ [TranscriptEvent raw True, Elapse d]) (mount b d0 g))
        = fst (run evs (mount b d0 g)) @ (if 1000 \<le> d then [trim raw] else []))
   \<and> (trim raw \<noteq> [] \<and> 1000 \<le> d \<longrightarrow>
      fst (run (evs @ [TranscriptEvent raw True, Elapse d] @ [Elapse d']) (mount b d0 g))
        = fst (run evs (mount b d0 g)) @ [trim raw])
   \<and> (trim raw = [] \<longrightarrow>
      fst (run (evs @ [TranscriptEvent raw True, Elapse d]) (mount b d0 g))
        = fst (run evs (mount b d0 g))
      \<and> timers (snd (snd (run (evs @ [TranscriptEvent raw True]) (mount b d0 g)))) = [])
   \<and> length (timers (snd (snd (run evs (mount b d0 g))))) \<le> 1
   \<and> timers (snd (snd (run (evs @ [TranscriptEvent t f]) (mount b d0 g))))
       = (if f \<and> trim t \<noteq> [] then
            [\<lparr>timer_id = next_timer (snd (snd (run evs (mount b d0 g)))),
              due = clock (snd (snd (run evs (mount b d0 g)))) + 1000,
              callback = FinalizeTimer (render initial_state) (trim t)\<rparr>]
          else if \<not> f then
            [\<lparr>timer_id = next_timer (snd (snd (run evs (mount b d0 g)))),
              due = clock (snd (snd (run evs (mount b d0 g)))) + 2000,
              callback = SafetyTimer (render initial_state)\<rparr>]
          else [])"
proof -
  let ?reg = "render initial_state"
  let ?sys = "snd (run evs (mount b d0 g))"
  have inv: "finalizer_inv ?reg ?sys"
    by (rule run_inv [OF mount_inv])
  have one: "length (timers (snd ?sys)) \<le> 1"
    using inv by (cases ?sys) (simp add: finalizer_inv_def split: list.splits)
  have started: "timers (snd (snd (run (evs @ [TranscriptEvent t f]) (mount b d0 g))))
       = (if f \<and> trim t \<noteq> [] then
            [\<lparr>timer_id = next_timer (snd ?sys), due = clock (snd ?sys) + 1000,
              callback = FinalizeTimer ?reg (trim t)\<rparr>]
          else if \<not> f then
            [\<lparr>timer_id = next_timer (snd ?sys), due = clock (snd ?sys) + 2000,
              callback = SafetyTimer ?reg\<rparr>]
          else [])"
    using transcript_event_timers(1) [of ?reg "fst ?sys" "snd ?sys" t f] inv
    by (simp add: run_append_snd)
  have more: "fst (run ([TranscriptEvent raw True, Elapse d] @ [Elapse d']) ?sys) = [trim raw]"
    if "trim raw \<noteq> []" "1000 \<le> d"
    unfolding run_append_fst
    using final_event_silence [OF inv that(1), where d = d] that(2)
      silence_without_timer [of "snd (run [TranscriptEvent raw True, Elapse d] ?sys)" d']
    by simp
  show ?thesis
    using final_event_silence(1) [OF inv, where raw = raw and d = d]
      empty_final_event [OF inv, where raw = raw] one
      started more
    by (simp add: run_append_fst run_append_snd del: run.simps append.simps)
qed

theorem finalize_delay_debounce_witness:
  "fst (run ([TranscriptEvent ''hel'' False, Elapse 300] @ [TranscriptEvent '' hello '' True, Elapse 1000])
          (mount True empty_db None)) = [''hello'']
   \<and> fst (run ([TranscriptEvent ''hel'' False, Elapse 300] @ [TranscriptEvent '' hello '' True, Elapse 999])
          (mount True empty_db None)) = []
   \<and> fst (run ([TranscriptEvent ''hel'' False, Elapse 300]
               @ [TranscriptEvent '' hello '' True, Elapse 1000] @ [Elapse 5000])
          (mount True empty_db None)) = [''hello'']
   \<and> fst (run ([TranscriptEvent ''hel'' False, Elapse 300] @ [TranscriptEvent ''  '' True, Elapse 5000])
          (mount True empty_db None)) = []"
proof -
  have t: "trim '' hello '' = ''hello''" "trim ''  '' = []"
    by (simp_all add: trim_def is_space_def)
  have before: "fst (run [TranscriptEvent ''hel'' False, Elapse 300] (mount True empty_db None)) = []"
    using interim_event_silence(1) [OF mount_inv, of "''hel''" 300 True empty_db None] by simp
  show ?thesis
    using finalize_delay_debounce
        [where raw = "'' hello ''" and evs = "[TranscriptEvent ''hel'' False, Elapse 300]"
           and d = 1000 and d' = 5000 and b = True and ?d0.0 = empty_db and g = None]
      finalize_delay_debounce
        [where raw = "'' hello ''" and evs = "[TranscriptEvent ''hel'' False, Elapse 300]"
           and d = 999 and b = True and ?d0.0 = empty_db and g = None]
      finalize_delay_debounce
        [where raw = "''  ''" and evs = "[TranscriptEvent ''hel'' False, Elapse 300]"
           and d = 5000 and b = True and ?d0.0 = empty_db and g = None]
    by (simp add: t before del: run.simps append.simps)
qed

text \<open>
  C7. After any run of events on a mounted hook, a series of interim transcripts, each
  followed by a pause shorter than 2000 milliseconds, and then a last interim transcript
  followed by a pause of \<open>d\<close> milliseconds hands to \<open>handleUserSpeech\<close> exactly the trimmed
  text of the last interim transcript if \<open>d\<close> is at least 2000 and that trimmed text is not
  empty, and nothing otherwise (a text that is empty after trimming is no utterance). A
  longer silence hands over nothing more.
\<close>

theorem safety_timer_fallback:
  "list_all (\<lambda>(t, gap). gap < 2000) xs \<Longrightarrow>
     fst (run (evs @ interim_burst xs @ [TranscriptEvent final_text False, Elapse d]) (mount b d0 g))
       = fst (run evs (mount b d0 g))
         @ (if 2000 \<le> d \<and> trim final_text \<noteq> [] then [trim final_text] else [])
     \<and> (2000 \<le> d \<longrightarrow>
         fst (run (evs @ interim_burst xs @ [TranscriptEvent final_text False, Elapse d] @ [Elapse d'])
                (mount b d0 g))
           = fst (run evs (mount b d0 g)) @ (if trim final_text \<noteq> [] then [trim final_text] else []))"
proof -
  assume gaps: "list_all (\<lambda>(t, gap). gap < 2000) xs"
  let ?reg = "render initial_state"
  let ?sys = "snd (run evs (mount b d0 g))"
  let ?sys1 = "snd (run (interim_burst xs) ?sys)"
  have inv: "finalizer_inv ?reg ?sys"
    by (rule run_inv [OF mount_inv])
  have inv1: "finalizer_inv ?reg ?sys1"
    by (rule run_inv [OF inv])
  have burst: "fst (run (interim_burst xs) ?sys) = []"
    by (rule interim_burst_silent [OF inv gaps])
  have more: "fst (run ([TranscriptEvent final_text False, Elapse d] @ [Elapse d']) ?sys1)
                = (if trim final_text \<noteq> [] then [trim final_text] else [])"
    if "2000 \<le> d"
    unfolding run_append_fst
    using interim_event_silence [OF inv1, where t = final_text and d = d] that
      silence_without_timer [of "snd (run [TranscriptEvent final_text False, Elapse d] ?sys1)" d']
    by simp
  show ?thesis
    using interim_event_silence(1) [OF inv1, where t = final_text and d = d] burst more
    by (simp add: run_append_fst run_append_snd del: run.simps append.simps)
qed

theorem safety_timer_fallback_witness:
  "fst (run ([] @ interim_burst [(''hey'', 500)] @ [TranscriptEvent ''hey you '' False, Elapse 2000])
          (mount True empty_db None)) = [''hey you'']"
proof -
  have t: "trim ''hey you '' = ''hey you''"
    by (simp add: trim_def is_space_def)
  have gaps: "list_all (\<lambda>(t, gap). gap < 2000) [(''hey'', 500::nat)]"
    by simp
  have nil: "fst (run [] (mount True empty_db None)) = []"
    by simp
  show ?thesis
    using safety_timer_fallback
        [OF gaps, where evs = "[]" and final_text = "''hey you ''" and d = 2000 and b = True
           and ?d0.0 = empty_db and g = None]
    by (simp add: t nil del: run.simps append.simps)
qed

lemma trim_no_break_space: "trim [CHR 0xA0] = []"
  by (simp add: trim_def is_space_def)

end
